theory Spec2Isabelle
  imports Complex_Main
begin

section \<open>JavaScript values as the code observes them\<close>

text \<open>
  The functions of \<^verbatim>\<open>parser.js\<close> receive untyped JavaScript values. Three
  things are observed of a value: whether it is truthy (\<^verbatim>\<open>!v\<close>, \<^verbatim>\<open>v || d\<close>),
  whether \<^verbatim>\<open>typeof v\<close> is \<^verbatim>\<open>"string"\<close>, and what \<^verbatim>\<open>String(v)\<close> returns.
  \<^item> A number is given by its truthiness (false for \<^verbatim>\<open>0\<close> and \<^verbatim>\<open>NaN\<close>) and by
    the text \<^verbatim>\<open>String\<close> renders it as.
  \<^item> An object (array, function, plain object) is always truthy; \<^verbatim>\<open>String\<close>
    calls its \<^verbatim>\<open>toString\<close>/\<^verbatim>\<open>valueOf\<close>, which yields a text, or throws a
    \<^verbatim>\<open>TypeError\<close> when neither is callable or returns a primitive (for
    instance \<^verbatim>\<open>Object.create(null)\<close>): \<open>JObject None\<close>.
  \<^item> A missing property reads as \<^verbatim>\<open>undefined\<close>.
  Strings are lists of 8-bit characters; white space and letter case are those of
  ASCII. The numbers of the score calculator and of the rank estimate are exact
  rationals, so products, quotients and \<^verbatim>\<open>Math.round\<close> carry no floating-point
  error.
\<close>

datatype js_value =
    JUndefined
  | JNull
  | JBoolean bool
  | JNumber bool string
  | JString string
  | JObject "string option"

datatype error = TypeError

fun truthy :: "js_value \<Rightarrow> bool" where
  "truthy JUndefined = False"
| "truthy JNull = False"
| "truthy (JBoolean b) = b"
| "truthy (JNumber t s) = t"
| "truthy (JString s) = (s \<noteq> [])"
| "truthy (JObject d) = True"

fun js_String :: "js_value \<Rightarrow> error + string" where
  "js_String JUndefined = Inr ''undefined''"
| "js_String JNull = Inr ''null''"
| "js_String (JBoolean b) = Inr (if b then ''true'' else ''false'')"
| "js_String (JNumber t s) = Inr s"
| "js_String (JString s) = Inr s"
| "js_String (JObject None) = Inl TypeError"
| "js_String (JObject (Some s)) = Inr s"

text \<open>\<^verbatim>\<open>v || d\<close>\<close>

definition js_or :: "js_value \<Rightarrow> js_value \<Rightarrow> js_value" where
  "js_or v d = (if truthy v then v else d)"

subsection \<open>String primitives\<close>

definition is_space :: "char \<Rightarrow> bool" where
  "is_space c = (c = CHR '' '' \<or> c = CHR 0x09 \<or> c = CHR 0x0A \<or> c = CHR 0x0B
                 \<or> c = CHR 0x0C \<or> c = CHR 0x0D)"

definition is_digit :: "char \<Rightarrow> bool" where
  "is_digit c = (48 \<le> (of_char c :: nat) \<and> (of_char c :: nat) \<le> 57)"

definition upper_char :: "char \<Rightarrow> char" where
  "upper_char c = (if 97 \<le> (of_char c :: nat) \<and> (of_char c :: nat) \<le> 122
                   then char_of (of_char c - (32::nat)) else c)"

definition toUpperCase :: "string \<Rightarrow> string" where
  "toUpperCase s = map upper_char s"

definition trim :: "string \<Rightarrow> string" where
  "trim s = rev (dropWhile is_space (rev (dropWhile is_space s)))"

text \<open>\<^verbatim>\<open>s\<close> starts with \<^verbatim>\<open>p\<close>, compared without regard to case (the \<^verbatim>\<open>i\<close> flag).\<close>

fun strip_ci :: "string \<Rightarrow> string \<Rightarrow> string option" where
  "strip_ci [] s = Some s"
| "strip_ci (p # ps) [] = None"
| "strip_ci (p # ps) (c # cs) =
     (if upper_char p = upper_char c then strip_ci ps cs else None)"

text \<open>\<^verbatim>\<open>s.includes(sub)\<close>\<close>

fun starts_with :: "string \<Rightarrow> string \<Rightarrow> bool" where
  "starts_with [] s = True"
| "starts_with (p # ps) [] = False"
| "starts_with (p # ps) (c # cs) = (p = c \<and> starts_with ps cs)"

fun js_includes :: "string \<Rightarrow> string \<Rightarrow> bool" where
  "js_includes [] sub = starts_with sub []"
| "js_includes (c # cs) sub = (starts_with sub (c # cs) \<or> js_includes cs sub)"

text \<open>\<^verbatim>\<open>/NOT\s*ATTEMPTED/i.test(s)\<close>: the pattern may start anywhere in \<^verbatim>\<open>s\<close>.\<close>

definition not_attempted_here :: "string \<Rightarrow> bool" where
  "not_attempted_here s =
     (case strip_ci ''NOT'' s of
        None \<Rightarrow> False
      | Some r \<Rightarrow> strip_ci ''ATTEMPTED'' (dropWhile is_space r) \<noteq> None)"

fun test_not_attempted :: "string \<Rightarrow> bool" where
  "test_not_attempted [] = False"
| "test_not_attempted (c # cs) = (not_attempted_here (c # cs) \<or> test_not_attempted cs)"

subsection \<open>Numbers\<close>

text \<open>\<^verbatim>\<open>Math.round\<close>: the nearest integer, a half going up.\<close>

definition Math_round :: "rat \<Rightarrow> int" where
  "Math_round x = \<lfloor>x + 1 / 2\<rfloor>"

text \<open>\<^verbatim>\<open>Math.round(x * 100) / 100\<close>\<close>

definition round2 :: "rat \<Rightarrow> rat" where
  "round2 x = of_int (Math_round (x * 100)) / 100"

section \<open>The score calculator\<close>

record pair =
  p_your :: js_value
  p_correct :: js_value

record score_summary =
  correct :: nat
  wrong :: nat
  unattempted :: nat
  totalQuestions :: nat
  marksPerCorrect :: rat
  negativePerWrong :: rat
  totalMarks :: rat
  accuracy :: rat

text \<open>
  The body of \<^verbatim>\<open>pairs.forEach\<close> in \<^verbatim>\<open>computeScore\<close>, on the three counters
  \<open>(correct, wrong, unattempted)\<close>. An exception thrown by \<^verbatim>\<open>String\<close> leaves the loop.
\<close>

fun count_pairs :: "pair list \<Rightarrow> nat \<times> nat \<times> nat \<Rightarrow> error + nat \<times> nat \<times> nat" where
  "count_pairs [] acc = Inr acc"
| "count_pairs (p # ps) (c, w, u) =
     (case js_String (js_or (p_your p) (JString [])) of
        Inl e \<Rightarrow> Inl e
      | Inr s1 \<Rightarrow>
          (let your = toUpperCase (trim s1) in
           case js_String (js_or (p_correct p) (JString [])) of
             Inl e \<Rightarrow> Inl e
           | Inr s2 \<Rightarrow>
               (let correctOpt = toUpperCase (trim s2) in
                if your = [] \<or> your = ''--'' \<or> test_not_attempted your
                then count_pairs ps (c, w, u + 1)
                else if your = correctOpt then count_pairs ps (c + 1, w, u)
                else count_pairs ps (c, w + 1, u))))"

text \<open>
  \<^verbatim>\<open>computeScore(pairs = [], marksPerCorrect = 1, negativePerWrong = 0.25)\<close>.
  An argument that is not passed is \<open>None\<close> and takes its default.
\<close>

definition computeScore ::
  "pair list option \<Rightarrow> rat option \<Rightarrow> rat option \<Rightarrow> error + score_summary" where
  "computeScore pairs_arg mpc_arg npw_arg =
     (let prs = (case pairs_arg of None \<Rightarrow> [] | Some ps \<Rightarrow> ps);
          mpc = (case mpc_arg of None \<Rightarrow> 1 | Some m \<Rightarrow> m);
          npw = (case npw_arg of None \<Rightarrow> 1 / 4 | Some n \<Rightarrow> n)
      in case count_pairs prs (0, 0, 0) of
           Inl e \<Rightarrow> Inl e
         | Inr (c, w, u) \<Rightarrow>
             (let marks = of_nat c * mpc - of_nat w * npw;
                  questions = (if c + w + u \<noteq> 0 then c + w + u else length prs);
                  acc = (if questions = 0 then 0
                         else of_nat c / of_nat (max 1 (c + w)) * 100)
              in Inr \<lparr> correct = c, wrong = w, unattempted = u,
                       totalQuestions = questions,
                       marksPerCorrect = mpc, negativePerWrong = npw,
                       totalMarks = round2 marks,
                       accuracy = round2 acc \<rparr>))"

record answer_section =
  name :: string
  pairs :: "pair list"

record section_score =
  section_name :: string
  score :: score_summary

record section_scores =
  sectionResults :: "section_score list"
  total :: score_summary

text \<open>\<^verbatim>\<open>sections.map((sec) => ({ name: sec.name, ...computeScore(sec.pairs) }))\<close>\<close>

fun score_sections :: "answer_section list \<Rightarrow> error + section_score list" where
  "score_sections [] = Inr []"
| "score_sections (sec # rest) =
     (case computeScore (Some (pairs sec)) None None of
        Inl e \<Rightarrow> Inl e
      | Inr sc \<Rightarrow>
          (case score_sections rest of
             Inl e \<Rightarrow> Inl e
           | Inr rs \<Rightarrow> Inr (\<lparr> section_name = name sec, score = sc \<rparr> # rs)))"

definition computeSectionScores :: "answer_section list \<Rightarrow> error + section_scores" where
  "computeSectionScores secs =
     (case score_sections secs of
        Inl e \<Rightarrow> Inl e
      | Inr results \<Rightarrow>
          (let allPairs = concat (map pairs secs) in
           case computeScore (Some allPairs) None None of
             Inl e \<Rightarrow> Inl e
           | Inr totalSc \<Rightarrow>
               Inr \<lparr> sectionResults = results, total = totalSc \<rparr>))"

subsection \<open>The classification in the words of the specification\<close>

text \<open>
  A field can be turned into a string unless it is an object whose conversion throws.
  \<open>normalized\<close> is the field coerced, trimmed and in upper case; \<open>classify\<close> puts
  a pair into one of three classes, and \<open>count_of\<close> counts the pairs of a class.
\<close>

datatype outcome = Correct | Wrong | Unattempted

definition convertible :: "js_value \<Rightarrow> bool" where
  "convertible v = (v \<noteq> JObject None)"

definition normalized :: "js_value \<Rightarrow> string" where
  "normalized v =
     (case js_String (js_or v (JString [])) of
        Inl e \<Rightarrow> []
      | Inr s \<Rightarrow> toUpperCase (trim s))"

definition classify :: "pair \<Rightarrow> outcome" where
  "classify p =
     (let chosen = normalized (p_your p) in
      if chosen = [] \<or> chosen = ''--'' \<or> test_not_attempted chosen then Unattempted
      else if chosen = normalized (p_correct p) then Correct
      else Wrong)"

definition count_of :: "outcome \<Rightarrow> pair list \<Rightarrow> nat" where
  "count_of k ps = length (filter (\<lambda>p. classify p = k) ps)"

definition str_pair :: "string \<Rightarrow> string \<Rightarrow> pair" where
  "str_pair y c = \<lparr> p_your = JString y, p_correct = JString c \<rparr>"

section \<open>The option mapper\<close>

text \<open>
  \<^verbatim>\<open>const map = { 1: "A", 2: "B", 3: "C", 4: "D" }; return map[num] || "--";\<close>
  The argument is the property key: both call sites pass a string, and a number is
  looked up under its decimal text. \<^verbatim>\<open>map\<close> is an object literal, so a key that is
  not one of its own four properties is looked up in \<^verbatim>\<open>Object.prototype\<close>, whose
  members are functions (and, for \<^verbatim>\<open>__proto__\<close>, the prototype object itself): all
  truthy, each given here with the text \<^verbatim>\<open>String\<close> renders it as.
\<close>

definition letter_map :: "(string \<times> string) list" where
  "letter_map = [(''1'', ''A''), (''2'', ''B''), (''3'', ''C''), (''4'', ''D'')]"

definition native_function :: "string \<Rightarrow> js_value" where
  "native_function f = JObject (Some (''function '' @ f @ ''() { [native code] }''))"

definition Object_prototype :: "(string \<times> js_value) list" where
  "Object_prototype =
     [(''constructor'', native_function ''Object''),
      (''__defineGetter__'', native_function ''__defineGetter__''),
      (''__defineSetter__'', native_function ''__defineSetter__''),
      (''hasOwnProperty'', native_function ''hasOwnProperty''),
      (''__lookupGetter__'', native_function ''__lookupGetter__''),
      (''__lookupSetter__'', native_function ''__lookupSetter__''),
      (''isPrototypeOf'', native_function ''isPrototypeOf''),
      (''propertyIsEnumerable'', native_function ''propertyIsEnumerable''),
      (''toString'', native_function ''toString''),
      (''valueOf'', native_function ''valueOf''),
      (''__proto__'', JObject (Some ''[object Object]'')),
      (''toLocaleString'', native_function ''toLocaleString'')]"

text \<open>\<^verbatim>\<open>map[num]\<close>\<close>

definition map_get :: "string \<Rightarrow> js_value" where
  "map_get num =
     (case map_of letter_map num of
        Some l \<Rightarrow> JString l
      | None \<Rightarrow>
          (case map_of Object_prototype num of
             Some v \<Rightarrow> v
           | None \<Rightarrow> JUndefined))"

definition mapToLetter :: "string \<Rightarrow> js_value" where
  "mapToLetter num = js_or (map_get num) (JString ''--'')"

section \<open>The rank estimate\<close>

text \<open>
  The block \<^verbatim>\<open>// Rank estimation\<close> of the \<^verbatim>\<open>POST /api/parse\<close> handler in
  \<^verbatim>\<open>server.js\<close>. The collection of stored scores is reached through
  \<^verbatim>\<open>mongoose.connection.readyState\<close> and two count queries, each of which may
  reject; the \<^verbatim>\<open>catch\<close> then keeps what was assigned before. The block has no
  name in the source; \<open>estimateRank\<close> is the name the specification gives it.
  \<open>newTotal\<close> is \<^verbatim>\<open>scores.total.totalMarks\<close> and \<open>totalCandidates\<close> is the number
  \<^verbatim>\<open>Number(totalCandidates)\<close>. The result holds the three fields of the response:
  the percentile as line 188 rounds it, the rank and the sample size.
\<close>

datatype db_failure = QueryFailed






section \<open>The structural parser\<close>

subsection \<open>The document as the queries see it\<close>

text \<open>
  \<^verbatim>\<open>parseAnswers\<close> reads the document through the selections of the
  \<^verbatim>\<open>cheerio\<close> library; \<^verbatim>\<open>load\<close>, the HTML parser of that library, is a
  parameter. A selection is the list of its elements, in document order.
  \<^item> A cell \<^verbatim>\<open>td\<close>: its \<^verbatim>\<open>text()\<close>, its classes, and the number of its
    descendants \<^verbatim>\<open>img[src*="tick.png"]\<close>.
  \<^item> A row \<^verbatim>\<open>tr\<close>: its \<^verbatim>\<open>find("td")\<close>.
  \<^item> A cell found by \<^verbatim>\<open>find("tr td")\<close> comes with \<^verbatim>\<open>parent("tr")\<close>: nothing
    when its parent is no row, else the elements that follow that row among its
    siblings, each a row or something else.
  \<^item> A table comes with its cells and with the three selections that line 101 to
    104 name: \<^verbatim>\<open>next("table.menu-tbl")\<close>,
    \<^verbatim>\<open>siblings("table.menu-tbl")\<close> and \<^verbatim>\<open>parent().next("table.menu-tbl")\<close>.
\<close>

record td_elem =
  td_text :: string
  td_classes :: "string list"
  td_ticks :: nat

record tr_elem =
  tr_tds :: "td_elem list"

datatype sibling = Tr tr_elem | NotTr

record found_td =
  the_td :: td_elem
  parent_tr :: "sibling list option"

record menu_tbl =
  menu_trs :: "tr_elem list"

record tbl_elem =
  tbl_tds :: "found_td list"
  tbl_next :: "menu_tbl list"
  tbl_siblings :: "menu_tbl list"
  tbl_parent_next :: "menu_tbl list"

record document =
  section_lbls :: "string list list"
  tables :: "tbl_elem list"
  body_text :: string

record parse_result =
  sections :: "answer_section list"

subsection \<open>Section discovery\<close>

text \<open>A \<^verbatim>\<open>.section-lbl\<close> is given by the texts of its \<^verbatim>\<open>span\<close> descendants.\<close>

definition section_of_lbl :: "string list \<Rightarrow> answer_section option" where
  "section_of_lbl lblSpans =
     (if length lblSpans \<ge> 2 then
        (let sectionPrefix = trim (lblSpans ! 0);
             sectionName = trim (lblSpans ! 1)
         in if js_includes sectionPrefix ''Section'' \<and> sectionName \<noteq> []
            then Some \<lparr> name = sectionName, pairs = [] \<rparr>
            else None)
      else None)"

definition discover_sections :: "string list list \<Rightarrow> answer_section list" where
  "discover_sections lbls = List.map_filter section_of_lbl lbls"

subsection \<open>One question table\<close>

text \<open>\<^verbatim>\<open>/^Q\.\d+$/\<close>\<close>

definition q_label :: "string \<Rightarrow> bool" where
  "q_label s =
     (case s of
        q # dot # ds \<Rightarrow> q = CHR ''Q'' \<and> dot = CHR ''.'' \<and> ds \<noteq> [] \<and> list_all is_digit ds
      | _ \<Rightarrow> False)"

text \<open>\<^verbatim>\<open>/^(\d+)\./\<close>: the digits captured, if the text starts with digits and a dot.\<close>

definition num_match :: "string \<Rightarrow> string option" where
  "num_match s =
     (let ds = takeWhile is_digit s in
      case dropWhile is_digit s of
        [] \<Rightarrow> None
      | c # r \<Rightarrow> if ds \<noteq> [] \<and> c = CHR ''.'' then Some ds else None)"

text \<open>\<^verbatim>\<open>$(tr).find("td").text()\<close>\<close>

definition row_text :: "tr_elem \<Rightarrow> string" where
  "row_text r = concat (map td_text (tr_tds r))"

text \<open>\<^verbatim>\<open>qTr.next("tr").filter(... includes("Ans"))\<close>, with the siblings after it.\<close>

definition ans_next :: "sibling list \<Rightarrow> (tr_elem \<times> sibling list) option" where
  "ans_next after =
     (case after of
        Tr r # rest \<Rightarrow> if js_includes (row_text r) ''Ans'' then Some (r, rest) else None
      | _ \<Rightarrow> None)"

text \<open>\<^verbatim>\<open>qTr.nextAll("tr:has(td.bold)").filter(... includes("Ans")).first()\<close>\<close>

fun ans_nextAll :: "sibling list \<Rightarrow> (tr_elem \<times> sibling list) option" where
  "ans_nextAll [] = None"
| "ans_nextAll (NotTr # rest) = ans_nextAll rest"
| "ans_nextAll (Tr r # rest) =
     (if list_ex (\<lambda>td. ''bold'' \<in> set (td_classes td)) (tr_tds r)
         \<and> js_includes (row_text r) ''Ans''
      then Some (r, rest)
      else ans_nextAll rest)"

text \<open>The loop \<^verbatim>\<open>for (let k = 1; k < 4; k++)\<close> over \<^verbatim>\<open>currentTr.next("tr")\<close>.\<close>

fun next_rows :: "nat \<Rightarrow> sibling list \<Rightarrow> tr_elem list" where
  "next_rows 0 after = []"
| "next_rows (Suc k) [] = []"
| "next_rows (Suc k) (NotTr # rest) = []"
| "next_rows (Suc k) (Tr r # rest) = r # next_rows k rest"

definition flagged :: "td_elem \<Rightarrow> bool" where
  "flagged optTd = (''rightAns'' \<in> set (td_classes optTd) \<or> td_ticks optTd > 0)"

text \<open>
  The body of \<^verbatim>\<open>optionRows.forEach\<close>. \<^verbatim>\<open>return false\<close> does not leave a
  \<^verbatim>\<open>forEach\<close>: every row is visited, and a later flagged row overwrites
  \<^verbatim>\<open>correctNum\<close>.
\<close>

definition option_row :: "string option \<Rightarrow> tr_elem \<Rightarrow> string option" where
  "option_row correctNum optTr =
     (case drop 1 (tr_tds optTr) of
        [] \<Rightarrow> correctNum
      | optTd # _ \<Rightarrow>
          if flagged optTd then
            (case num_match (trim (td_text optTd)) of
               Some d \<Rightarrow> Some d
             | None \<Rightarrow> correctNum)
          else correctNum)"

text \<open>
  \<^verbatim>\<open>a || b\<close> on selections: a selection is an object, truthy also when it is
  empty, so the second operand is never taken.
\<close>

definition selection_or :: "'a list \<Rightarrow> 'a list \<Rightarrow> 'a list" where
  "selection_or a b = a"

text \<open>Line 105 to 113: the text of the chosen option, \<open>None\<close> for \<^verbatim>\<open>null\<close>.\<close>

definition chosen_num :: "menu_tbl list \<Rightarrow> string option" where
  "chosen_num menuTbl =
     (if length menuTbl > 0 then
        (case concat (map menu_trs menuTbl) of
           [] \<Rightarrow> None
         | r # rs \<Rightarrow>
             (let tds = tr_tds (last (r # rs)) in
              if length tds \<ge> 2 \<and> js_includes (td_text (tds ! 0)) ''Chosen Option''
              then Some (trim (td_text (tds ! 1)))
              else None))
      else None)"

text \<open>The rows from which the correct option is read, if an answer row is found.\<close>

definition option_rows :: "tbl_elem \<Rightarrow> tr_elem list option" where
  "option_rows tbl =
     (case filter (\<lambda>c. q_label (trim (td_text (the_td c)))) (tbl_tds tbl) of
        [] \<Rightarrow> None
      | qTd # _ \<Rightarrow>
          (case parent_tr qTd of
             None \<Rightarrow> None
           | Some after \<Rightarrow>
               (case (case ans_next after of Some a \<Rightarrow> Some a | None \<Rightarrow> ans_nextAll after) of
                  None \<Rightarrow> None
                | Some (ansTr, rest) \<Rightarrow> Some (ansTr # next_rows 3 rest))))"

definition correct_num :: "tbl_elem \<Rightarrow> string option" where
  "correct_num tbl =
     (case option_rows tbl of
        None \<Rightarrow> None
      | Some optionRows \<Rightarrow> foldl option_row None optionRows)"

text \<open>
  The body of \<^verbatim>\<open>$("table.norm-tbl, table.questionRowTbl").each\<close>: the pair of
  one table, \<open>None\<close> when the callback returns before \<^verbatim>\<open>allPairs.push\<close>.
\<close>

definition table_pair :: "tbl_elem \<Rightarrow> pair option" where
  "table_pair tbl =
     (case correct_num tbl of
        None \<Rightarrow> None
      | Some correctNum \<Rightarrow>
          if correctNum = [] then None
          else
            (let menuTbl = selection_or (tbl_next tbl)
                             (selection_or (take 1 (tbl_siblings tbl)) (tbl_parent_next tbl));
                 chosenNum = chosen_num menuTbl;
                 yourOpt = (case chosenNum of
                              None \<Rightarrow> JString ''--''
                            | Some n \<Rightarrow> if n = [] then JString ''--'' else mapToLetter n);
                 correctOpt = mapToLetter correctNum
             in Some \<lparr> p_your = yourOpt, p_correct = correctOpt \<rparr>))"

subsection \<open>The pass over the tables\<close>

text \<open>
  \<^verbatim>\<open>currentSection\<close> is the section detected last, the same object as the last
  element of \<^verbatim>\<open>sections\<close>; when none was detected it is the section
  \<^verbatim>\<open>"Overall"\<close>, which is not in \<^verbatim>\<open>sections\<close>.
\<close>

record parse_state =
  st_sections :: "answer_section list"
  st_overall :: "answer_section option"
  st_allPairs :: "pair list"

definition push_pair :: "answer_section \<Rightarrow> pair \<Rightarrow> answer_section" where
  "push_pair sec p = sec \<lparr> pairs := pairs sec @ [p] \<rparr>"

definition push_current :: "parse_state \<Rightarrow> pair \<Rightarrow> parse_state" where
  "push_current st p =
     (case st_overall st of
        Some ov \<Rightarrow> st \<lparr> st_overall := Some (push_pair ov p) \<rparr>
      | None \<Rightarrow>
          (case st_sections st of
             [] \<Rightarrow> st
           | s # ss \<Rightarrow>
               st \<lparr> st_sections := butlast (s # ss) @ [push_pair (last (s # ss)) p] \<rparr>))"

definition table_step :: "parse_state \<Rightarrow> tbl_elem \<Rightarrow> parse_state" where
  "table_step st tbl =
     (case table_pair tbl of
        None \<Rightarrow> st
      | Some p \<Rightarrow> push_current (st \<lparr> st_allPairs := st_allPairs st @ [p] \<rparr>) p)"

definition structural_pass :: "document \<Rightarrow> parse_state" where
  "structural_pass doc =
     (let secs = discover_sections (section_lbls doc);
          st = \<lparr> st_sections = secs,
                 st_overall = (if length secs = 0
                               then Some \<lparr> name = ''Overall'', pairs = [] \<rparr>
                               else None),
                 st_allPairs = [] \<rparr>
      in foldl table_step st (tables doc))"

subsection \<open>Distribution over the sections\<close>

text \<open>\<^verbatim>\<open>xs.slice(a, b)\<close> and \<^verbatim>\<open>xs.slice(a)\<close> for indices that are not negative.\<close>

definition slice :: "'a list \<Rightarrow> nat \<Rightarrow> nat \<Rightarrow> 'a list" where
  "slice xs a b = take (b - a) (drop a xs)"

text \<open>The \<^verbatim>\<open>sections.forEach\<close> of line 134, with \<^verbatim>\<open>idx\<close> passed along.\<close>

fun assign_slices ::
  "answer_section list \<Rightarrow> pair list \<Rightarrow> nat \<Rightarrow> nat \<Rightarrow> answer_section list \<times> nat" where
  "assign_slices [] allPairs pairsPerSection idx = ([], idx)"
| "assign_slices (sec # rest) allPairs pairsPerSection idx =
     (let endIdx = idx + pairsPerSection;
          sec' = sec \<lparr> pairs := slice allPairs idx endIdx \<rparr>;
          (rest', idx') = assign_slices rest allPairs pairsPerSection endIdx
      in (sec' # rest', idx'))"

text \<open>
  Line 130 to 146. In the \<^verbatim>\<open>else\<close> branch \<^verbatim>\<open>sections[0]\<close> is
  \<^verbatim>\<open>undefined\<close> when no section was detected, and assigning to its \<^verbatim>\<open>pairs\<close>
  throws a \<^verbatim>\<open>TypeError\<close>.
\<close>

definition distribute :: "answer_section list \<Rightarrow> pair list \<Rightarrow> error + answer_section list" where
  "distribute secs allPairs =
     (if length secs > 1 then
        (let numSections = length secs;
             pairsPerSection = length allPairs div numSections;
             (secs', idx) = assign_slices secs allPairs pairsPerSection 0;
             lastSec = last secs'
         in Inr (butlast secs' @ [lastSec \<lparr> pairs := pairs lastSec @ drop idx allPairs \<rparr>]))
      else
        (case secs of
           [] \<Rightarrow> Inl TypeError
         | s0 # rest \<Rightarrow> Inr (s0 \<lparr> pairs := allPairs \<rparr> # rest)))"

subsection \<open>The fallback over the visible text\<close>

text \<open>
  \<^verbatim>\<open>/Your\s*Answer\s*[:\-]?\s*([A-D]|--|Not Attempted)\b.*?Correct\s*Answer\s*[:\-]?\s*([A-D])/gi\<close>,
  matched by a matcher written for this pattern. A greedy \<^verbatim>\<open>\s*\<close> takes the
  whole run of white space, since what follows it never starts with white space.
\<close>

definition is_word_char :: "char \<Rightarrow> bool" where
  "is_word_char c =
     (is_digit c \<or> (65 \<le> (of_char (upper_char c) :: nat) \<and> (of_char (upper_char c) :: nat) \<le> 90)
      \<or> c = CHR ''_'')"

definition is_sep :: "char \<Rightarrow> bool" where
  "is_sep c = (c = CHR '':'' \<or> c = CHR ''-'')"

text \<open>\<^verbatim>\<open>[A-D]\<close> under the \<^verbatim>\<open>i\<close> flag\<close>

definition in_A_D :: "char \<Rightarrow> bool" where
  "in_A_D c = (65 \<le> (of_char (upper_char c) :: nat) \<and> (of_char (upper_char c) :: nat) \<le> 68)"

text \<open>\<^verbatim>\<open>\b\<close> between the character \<open>prev\<close> and the start of \<open>rest\<close>\<close>

definition boundary :: "char \<Rightarrow> string \<Rightarrow> bool" where
  "boundary prev rest =
     (is_word_char prev \<noteq> (case rest of [] \<Rightarrow> False | c # r \<Rightarrow> is_word_char c))"

text \<open>
  \<^verbatim>\<open>([A-D]|--|Not Attempted)\b\<close> at the start of \<open>s\<close>: the text captured and
  what follows it. The three alternatives start with different characters.
\<close>

definition answer_group :: "string \<Rightarrow> (string \<times> string) option" where
  "answer_group s =
     (case s of
        [] \<Rightarrow> None
      | c # r \<Rightarrow>
          if in_A_D c then (if boundary c r then Some ([c], r) else None)
          else if starts_with ''--'' s
          then (if boundary (CHR ''-'') (drop 2 s) then Some (take 2 s, drop 2 s) else None)
          else
            (case strip_ci ''Not Attempted'' s of
               None \<Rightarrow> None
             | Some r' \<Rightarrow> if boundary (CHR ''d'') r' then Some (take 13 s, r') else None))"

text \<open>\<^verbatim>\<open>Correct\s*Answer\s*[:\-]?\s*([A-D])\<close> at the start of \<open>s\<close>\<close>

definition correct_tail :: "string \<Rightarrow> (string \<times> string) option" where
  "correct_tail s =
     (case strip_ci ''Correct'' s of
        None \<Rightarrow> None
      | Some a \<Rightarrow>
          (case strip_ci ''Answer'' (dropWhile is_space a) of
             None \<Rightarrow> None
           | Some b \<Rightarrow>
               (let c = dropWhile is_space b;
                    d = (case c of
                           [] \<Rightarrow> c
                         | x # r \<Rightarrow> if is_sep x then dropWhile is_space r else c)
                in case d of
                     [] \<Rightarrow> None
                   | x # r \<Rightarrow> if in_A_D x then Some ([x], r) else None)))"

text \<open>\<^verbatim>\<open>.*?\<close> and the rest: the dot matches no line terminator.\<close>

fun lazy_tail :: "string \<Rightarrow> (string \<times> string) option" where
  "lazy_tail [] = None"
| "lazy_tail (c # cs) =
     (case correct_tail (c # cs) of
        Some m \<Rightarrow> Some m
      | None \<Rightarrow> if c = CHR 0x0A \<or> c = CHR 0x0D then None else lazy_tail cs)"

definition after_sep :: "string \<Rightarrow> (string \<times> string \<times> string) option" where
  "after_sep s =
     (case answer_group s of
        None \<Rightarrow> None
      | Some (m1, r) \<Rightarrow>
          (case lazy_tail r of
             None \<Rightarrow> None
           | Some (m2, rest) \<Rightarrow> Some (m1, m2, rest)))"

text \<open>
  The whole pattern at the start of \<open>s\<close>: both captures and what follows the match.
  \<^verbatim>\<open>[:\-]?\<close> first takes a separator; the matcher comes back to taking none
  when the rest fails.
\<close>

definition rx1_here :: "string \<Rightarrow> (string \<times> string \<times> string) option" where
  "rx1_here s =
     (case strip_ci ''Your'' s of
        None \<Rightarrow> None
      | Some a \<Rightarrow>
          (case strip_ci ''Answer'' (dropWhile is_space a) of
             None \<Rightarrow> None
           | Some b \<Rightarrow>
               (let c = dropWhile is_space b;
                    taken = (case c of
                               [] \<Rightarrow> None
                             | x # r \<Rightarrow> if is_sep x then after_sep (dropWhile is_space r)
                                        else None)
                in case taken of
                     Some m \<Rightarrow> Some m
                   | None \<Rightarrow> after_sep c)))"

text \<open>
  \<^verbatim>\<open>while ((m = rx1.exec(bodyText)) !== null)\<close>: the matches from left to right,
  each search starting where the match before it ended. The first argument counts
  the characters of the last match still to be passed over.
\<close>

fun rx1_exec_all :: "nat \<Rightarrow> string \<Rightarrow> (string \<times> string) list" where
  "rx1_exec_all k [] = []"
| "rx1_exec_all (Suc k) (c # cs) = rx1_exec_all k cs"
| "rx1_exec_all 0 (c # cs) =
     (case rx1_here (c # cs) of
        None \<Rightarrow> rx1_exec_all 0 cs
      | Some (m1, m2, rest) \<Rightarrow>
          (m1, m2) # rx1_exec_all (length cs - length rest) cs)"

text \<open>\<^verbatim>\<open>.replace(/\s+/g, " ")\<close>; the flag says that the last character was white space.\<close>

fun collapse_spaces :: "bool \<Rightarrow> string \<Rightarrow> string" where
  "collapse_spaces in_run [] = []"
| "collapse_spaces in_run (c # cs) =
     (if is_space c
      then (if in_run then collapse_spaces True cs else CHR '' '' # collapse_spaces True cs)
      else c # collapse_spaces False cs)"

text \<open>
  Line 148 to 158. \<^verbatim>\<open>sections[sections.length - 1]\<close> is \<^verbatim>\<open>undefined\<close> for an
  empty array, and reading its \<^verbatim>\<open>pairs\<close> throws.
\<close>

fun push_matches :: "answer_section list \<Rightarrow> (string \<times> string) list \<Rightarrow> error + answer_section list" where
  "push_matches secs [] = Inr secs"
| "push_matches secs ((m1, m2) # ms) =
     (case secs of
        [] \<Rightarrow> Inl TypeError
      | s # ss \<Rightarrow>
          push_matches (butlast (s # ss) @ [push_pair (last (s # ss)) (str_pair m1 m2)]) ms)"

definition fallback :: "answer_section list \<Rightarrow> string \<Rightarrow> error + answer_section list" where
  "fallback secs visible =
     (if length (concat (map pairs secs)) = 0
      then (let bodyText = collapse_spaces False visible
            in push_matches secs (rx1_exec_all 0 bodyText))
      else Inr secs)"

subsection \<open>\<^verbatim>\<open>parseAnswers\<close>\<close>

definition js_typeof :: "js_value \<Rightarrow> string" where
  "js_typeof v =
     (case v of
        JUndefined \<Rightarrow> ''undefined''
      | JNull \<Rightarrow> ''object''
      | JBoolean b \<Rightarrow> ''boolean''
      | JNumber t s \<Rightarrow> ''number''
      | JString s \<Rightarrow> ''string''
      | JObject d \<Rightarrow> ''object'')"

text \<open>The characters of a string value.\<close>

definition string_of :: "js_value \<Rightarrow> string" where
  "string_of v = (case v of JString h \<Rightarrow> h | _ \<Rightarrow> [])"

text \<open>The sections after line 146, before the fallback.\<close>

definition assemble :: "document \<Rightarrow> error + answer_section list" where
  "assemble doc =
     (let st = structural_pass doc in distribute (st_sections st) (st_allPairs st))"

definition parseAnswers :: "(string \<Rightarrow> document) \<Rightarrow> js_value \<Rightarrow> error + parse_result" where
  "parseAnswers load html =
     (if \<not> truthy html \<or> js_typeof html \<noteq> ''string'' then Inr \<lparr> sections = [] \<rparr>
      else
        (let doc = load (string_of html) in
         case assemble doc of
           Inl e \<Rightarrow> Inl e
         | Inr secs \<Rightarrow>
             (case fallback secs (body_text doc) of
                Inl e \<Rightarrow> Inl e
              | Inr secs' \<Rightarrow> Inr \<lparr> sections = secs' \<rparr>)))"

text \<open>The pairs of the structural pass, in document order (\<^verbatim>\<open>allPairs\<close>).\<close>

definition structural_pairs :: "document \<Rightarrow> pair list" where
  "structural_pairs doc = st_allPairs (structural_pass doc)"

subsection \<open>What a question block shows, in the words of the specification\<close>



text \<open>
  The companion menu table as the specification locates it: the next sibling, or
  else the nearest sibling table of that kind.
\<close>

definition companion_menu :: "tbl_elem \<Rightarrow> menu_tbl list" where
  "companion_menu tbl =
     (if tbl_next tbl \<noteq> [] then tbl_next tbl else take 1 (tbl_siblings tbl))"

text \<open>
  A menu table shows a chosen option that can be parsed: its last row is a
  chosen-option row whose value is one of the digits 1 to 4.
\<close>

definition shows_choice :: "menu_tbl list \<Rightarrow> bool" where
  "shows_choice menuTbl =
     (case chosen_num menuTbl of
        None \<Rightarrow> False
      | Some n \<Rightarrow> n \<in> set [''1'', ''2'', ''3'', ''4''])"


text \<open>
  The pairs the section at position \<open>i\<close> of \<open>k\<close> receives when each section but
  the last takes \<open>q\<close> consecutive pairs and the last takes the rest.
\<close>

definition share :: "nat \<Rightarrow> nat \<Rightarrow> pair list \<Rightarrow> nat \<Rightarrow> pair list" where
  "share k q all i = (if i < k - 1 then take q (drop (i * q) all) else drop (i * q) all)"

section \<open>Example documents\<close>

definition cell :: "string \<Rightarrow> td_elem" where
  "cell t = \<lparr> td_text = t, td_classes = [], td_ticks = 0 \<rparr>"

definition bold_cell :: "string \<Rightarrow> td_elem" where
  "bold_cell t = \<lparr> td_text = t, td_classes = [''bold''], td_ticks = 0 \<rparr>"

definition right_cell :: "string \<Rightarrow> td_elem" where
  "right_cell t = \<lparr> td_text = t, td_classes = [''rightAns''], td_ticks = 1 \<rparr>"

text \<open>A menu table whose last row gives the chosen option.\<close>

definition menu_with :: "string \<Rightarrow> menu_tbl" where
  "menu_with chosen =
     \<lparr> menu_trs = [\<lparr> tr_tds = [cell ''Status :'', cell ''Answered''] \<rparr>,
                    \<lparr> tr_tds = [cell ''Chosen Option :'', cell chosen] \<rparr>] \<rparr>"

text \<open>
  A question table: the cell \<^verbatim>\<open>Q.1\<close>, whose row is followed by four option rows,
  the second of them flagged and reading \<open>right\<close>; \<open>menus\<close> is what follows the table.
\<close>

definition block :: "string \<Rightarrow> menu_tbl list \<Rightarrow> tbl_elem" where
  "block right menus =
     \<lparr> tbl_tds =
         [\<lparr> the_td = bold_cell ''Q.1'',
            parent_tr = Some [Tr \<lparr> tr_tds = [bold_cell ''Ans'', cell ''1. Paris''] \<rparr>,
                              Tr \<lparr> tr_tds = [cell [], right_cell right] \<rparr>,
                              Tr \<lparr> tr_tds = [cell [], cell ''3. Oslo''] \<rparr>,
                              Tr \<lparr> tr_tds = [cell [], cell ''4. Bonn''] \<rparr>] \<rparr>],
       tbl_next = menus,
       tbl_siblings = menus,
       tbl_parent_next = [] \<rparr>"


text \<open>A page without markup for sections or questions, as the fallback expects it.\<close>

definition plain_doc :: document where
  "plain_doc =
     \<lparr> section_lbls = [], tables = [],
       body_text = ''Q1 Your Answer: B Correct Answer: C'' \<rparr>"


text \<open>
  A question table with the right answer at option 2, followed by a menu table
  whose chosen-option row reads \<^verbatim>\<open>constructor\<close>.
\<close>

definition odd_choice_block :: tbl_elem where
  "odd_choice_block = block ''2. Rome'' [menu_with ''constructor'']"

text \<open>One section, no question table, and two answers in the text.\<close>

definition one_section_text_doc :: document where
  "one_section_text_doc =
     \<lparr> section_lbls = [[''Section : '', ''General'']], tables = [],
       body_text = ''Q1  Your Answer: B   Correct Answer: C Q2 Your Answer: Not Attempted Correct Answer: a'' \<rparr>"

section \<open>Example pairs and sections\<close>


text \<open>A section with one correct answer and a section with one wrong answer.\<close>

definition split_sections :: "answer_section list" where
  "split_sections =
     [\<lparr> name = ''Maths'', pairs = [str_pair ''A'' ''A''] \<rparr>,
      \<lparr> name = ''Physics'', pairs = [str_pair ''B'' ''A''] \<rparr>]"

text \<open>
  Pairs whose fields are missing, \<^verbatim>\<open>null\<close>, \<^verbatim>\<open>false\<close>, a number, or objects
  with a working \<^verbatim>\<open>toString\<close>.
\<close>

definition odd_pairs :: "pair list" where
  "odd_pairs =
     [\<lparr> p_your = JUndefined, p_correct = JNull \<rparr>,
      \<lparr> p_your = JBoolean False, p_correct = JString ''A'' \<rparr>,
      \<lparr> p_your = JObject (Some ''[object Object]''), p_correct = JNumber True ''3'' \<rparr>,
      \<lparr> p_your = JNumber True ''3'', p_correct = JObject (Some ''3'') \<rparr>]"

text \<open>\<^verbatim>\<open>[{ your: Object.create(null), correct: "A" }]\<close>\<close>

definition unconvertible_pairs :: "pair list" where
  "unconvertible_pairs = [\<lparr> p_your = JObject None, p_correct = JString ''A'' \<rparr>]"

section \<open>Properties of the score calculator\<close>

subsection \<open>The counting loop\<close>

lemma js_String_or_convertible:
  "convertible v \<Longrightarrow> js_String (js_or v (JString [])) = Inr (case js_String (js_or v (JString [])) of Inr s \<Rightarrow> s | Inl e \<Rightarrow> [])"
  by (cases v rule: js_String.cases) (auto simp: convertible_def js_or_def)

lemma js_String_or_not_convertible:
  "\<not> convertible v \<Longrightarrow> js_String (js_or v (JString [])) = Inl TypeError"
  by (simp add: convertible_def js_or_def)

lemma count_pairs_step:
  assumes "convertible (p_your p)" and "convertible (p_correct p)"
  shows "count_pairs (p # ps) (c, w, u) =
     (case classify p of
        Unattempted \<Rightarrow> count_pairs ps (c, w, u + 1)
      | Correct \<Rightarrow> count_pairs ps (c + 1, w, u)
      | Wrong \<Rightarrow> count_pairs ps (c, w + 1, u))"
proof -
  obtain a where a: "js_String (js_or (p_your p) (JString [])) = Inr a"
    using js_String_or_convertible [OF assms(1)] by blast
  obtain b where b: "js_String (js_or (p_correct p) (JString [])) = Inr b"
    using js_String_or_convertible [OF assms(2)] by blast
  have na: "normalized (p_your p) = toUpperCase (trim a)" by (simp add: normalized_def a)
  have nb: "normalized (p_correct p) = toUpperCase (trim b)" by (simp add: normalized_def b)
  show ?thesis
    unfolding classify_def na nb Let_def count_pairs.simps a b
    by (simp only: sum.case if_distrib [of "case_outcome _ _ _"] outcome.case split: if_splits)
qed

lemma count_pairs_convertible:
  "\<forall>p\<in>set ps. convertible (p_your p) \<and> convertible (p_correct p) \<Longrightarrow>
   count_pairs ps (c, w, u) =
     Inr (c + count_of Correct ps, w + count_of Wrong ps, u + count_of Unattempted ps)"
proof (induction ps arbitrary: c w u)
  case Nil
  show ?case by (simp add: count_of_def)
next
  case (Cons p ps)
  have step: "count_pairs (p # ps) (c, w, u) =
     (case classify p of
        Unattempted \<Rightarrow> count_pairs ps (c, w, u + 1)
      | Correct \<Rightarrow> count_pairs ps (c + 1, w, u)
      | Wrong \<Rightarrow> count_pairs ps (c, w + 1, u))"
    using Cons.prems by (intro count_pairs_step) simp_all
  have ih: "\<And>c w u. count_pairs ps (c, w, u) =
     Inr (c + count_of Correct ps, w + count_of Wrong ps, u + count_of Unattempted ps)"
    using Cons by simp
  show ?case
    unfolding step by (cases "classify p") (simp_all add: ih count_of_def)
qed

lemma count_of_total:
  "count_of Correct ps + count_of Wrong ps + count_of Unattempted ps = length ps"
proof (induction ps)
  case Nil show ?case by (simp add: count_of_def)
next
  case (Cons p ps)
  then show ?case by (cases "classify p") (simp_all add: count_of_def)
qed

lemma count_pairs_head_error:
  "\<not> (convertible (p_your p) \<and> convertible (p_correct p)) \<Longrightarrow>
   count_pairs (p # ps) (c, w, u) = Inl TypeError"
proof (cases "convertible (p_your p)")
  case False
  show ?thesis
    unfolding count_pairs.simps
    by (simp only: js_String_or_not_convertible [OF False] sum.case)
next
  case True
  assume "\<not> (convertible (p_your p) \<and> convertible (p_correct p))"
  with True have k: "\<not> convertible (p_correct p)" by simp
  obtain a where a: "js_String (js_or (p_your p) (JString [])) = Inr a"
    using js_String_or_convertible [OF True] by blast
  show ?thesis
    unfolding count_pairs.simps a Let_def
    by (simp only: js_String_or_not_convertible [OF k] sum.case)
qed

lemma count_pairs_error:
  "\<exists>p\<in>set ps. \<not> (convertible (p_your p) \<and> convertible (p_correct p)) \<Longrightarrow>
   count_pairs ps acc = Inl TypeError"
proof (induction ps arbitrary: acc)
  case Nil then show ?case by simp
next
  case (Cons p ps)
  obtain c w u where acc: "acc = (c, w, u)" by (cases acc) auto
  show ?case
  proof (cases "convertible (p_your p) \<and> convertible (p_correct p)")
    case False
    then show ?thesis unfolding acc by (rule count_pairs_head_error)
  next
    case True
    then have "\<exists>p\<in>set ps. \<not> (convertible (p_your p) \<and> convertible (p_correct p))"
      using Cons.prems by auto
    then have r: "\<And>acc. count_pairs ps acc = Inl TypeError" using Cons.IH by blast
    have step: "count_pairs (p # ps) (c, w, u) =
     (case classify p of
        Unattempted \<Rightarrow> count_pairs ps (c, w, u + 1)
      | Correct \<Rightarrow> count_pairs ps (c + 1, w, u)
      | Wrong \<Rightarrow> count_pairs ps (c, w + 1, u))"
      using True by (intro count_pairs_step) simp_all
    show ?thesis unfolding acc step by (cases "classify p") (simp_all add: r)
  qed
qed

lemma computeScore_convertible:
  assumes "\<forall>p\<in>set ps. convertible (p_your p) \<and> convertible (p_correct p)"
  shows "computeScore (Some ps) (Some m) (Some n) =
     Inr \<lparr> correct = count_of Correct ps, wrong = count_of Wrong ps,
            unattempted = count_of Unattempted ps, totalQuestions = length ps,
            marksPerCorrect = m, negativePerWrong = n,
            totalMarks = round2 (of_nat (count_of Correct ps) * m - of_nat (count_of Wrong ps) * n),
            accuracy = (if length ps = 0 then 0
                        else round2 (of_nat (count_of Correct ps)
                               / of_nat (max 1 (count_of Correct ps + count_of Wrong ps)) * 100)) \<rparr>"
proof -
  have cp: "count_pairs ps (0, 0, 0) =
      Inr (count_of Correct ps, count_of Wrong ps, count_of Unattempted ps)"
    using count_pairs_convertible [OF assms, of 0 0 0] by simp
  have tot: "count_of Correct ps + count_of Wrong ps + count_of Unattempted ps = length ps"
    by (rule count_of_total)
  have q: "(if count_of Correct ps + count_of Wrong ps + count_of Unattempted ps \<noteq> 0
            then count_of Correct ps + count_of Wrong ps + count_of Unattempted ps
            else length ps) = length ps"
    unfolding tot by simp
  have r0: "round2 0 = 0" by (simp add: round2_def Math_round_def floor_eq_iff)
  show ?thesis
    unfolding computeScore_def Let_def option.case cp sum.case prod.case q
    by (simp add: r0)
qed

lemma error_is_TypeError: "((e::error) = TypeError) \<longleftrightarrow> True"
  by (cases e) simp

lemma computeScore_error:
  assumes "\<exists>p\<in>set ps. \<not> (convertible (p_your p) \<and> convertible (p_correct p))"
  shows "computeScore (Some ps) m n = Inl TypeError"
  by (simp add: computeScore_def count_pairs_error [OF assms])

lemma computeScore_defaults:
  "computeScore (Some ps) None None = computeScore (Some ps) (Some 1) (Some (1 / 4))"
  by (simp add: computeScore_def)

lemma score_sections_error:
  "\<exists>p\<in>set (concat (map pairs secs)). \<not> (convertible (p_your p) \<and> convertible (p_correct p))
   \<Longrightarrow> score_sections secs = Inl TypeError"
proof (induction secs)
  case Nil then show ?case by simp
next
  case (Cons sec rest)
  show ?case
  proof (cases "\<exists>p\<in>set (pairs sec). \<not> (convertible (p_your p) \<and> convertible (p_correct p))")
    case True
    then show ?thesis by (simp add: computeScore_error)
  next
    case False
    then have "\<exists>p\<in>set (concat (map pairs rest)). \<not> (convertible (p_your p) \<and> convertible (p_correct p))"
      using Cons.prems by auto
    then have "score_sections rest = Inl TypeError" by (rule Cons.IH)
    then show ?thesis by (simp add: error_is_TypeError split: sum.splits)
  qed
qed

lemma score_sections_ok:
  "\<forall>p\<in>set (concat (map pairs secs)). convertible (p_your p) \<and> convertible (p_correct p)
   \<Longrightarrow> \<exists>rs. score_sections secs = Inr rs \<and> length rs = length secs
        \<and> map section_name rs = map name secs
        \<and> map (\<lambda>r. totalQuestions (score r)) rs = map (\<lambda>s. length (pairs s)) secs"
proof (induction secs)
  case Nil then show ?case by simp
next
  case (Cons sec rest)
  have h: "\<forall>p\<in>set (pairs sec). convertible (p_your p) \<and> convertible (p_correct p)"
    using Cons.prems by simp
  have "\<forall>p\<in>set (concat (map pairs rest)). convertible (p_your p) \<and> convertible (p_correct p)"
    using Cons.prems by simp
  then have "\<exists>rs. score_sections rest = Inr rs \<and> length rs = length rest
        \<and> map section_name rs = map name rest
        \<and> map (\<lambda>r. totalQuestions (score r)) rs = map (\<lambda>s. length (pairs s)) rest"
    by (rule Cons.IH)
  then obtain rs where rs: "score_sections rest = Inr rs" and l: "length rs = length rest"
     and n: "map section_name rs = map name rest"
     and t: "map (\<lambda>r. totalQuestions (score r)) rs = map (\<lambda>s. length (pairs s)) rest"
    by blast
  show ?case
    using l n t by (simp add: rs computeScore_defaults computeScore_convertible [OF h])
qed

subsection \<open>Classification and totals\<close>




subsection \<open>Section scores\<close>

lemma split_sections_scores:
  "computeSectionScores split_sections =
     Inr \<lparr> sectionResults =
             [\<lparr> section_name = ''Maths'',
                 score = \<lparr> correct = 1, wrong = 0, unattempted = 0, totalQuestions = 1,
                            marksPerCorrect = 1, negativePerWrong = 1 / 4,
                            totalMarks = 1, accuracy = 100 \<rparr> \<rparr>,
              \<lparr> section_name = ''Physics'',
                 score = \<lparr> correct = 0, wrong = 1, unattempted = 0, totalQuestions = 1,
                            marksPerCorrect = 1, negativePerWrong = 1 / 4,
                            totalMarks = - (1 / 4), accuracy = 0 \<rparr> \<rparr>],
            total = \<lparr> correct = 1, wrong = 1, unattempted = 0, totalQuestions = 2,
                      marksPerCorrect = 1, negativePerWrong = 1 / 4,
                      totalMarks = 3 / 4, accuracy = 50 \<rparr> \<rparr>"
  by code_simp

text \<open>
  \<^bold>\<open>C5.\<close> For every list of sections, the overall total of
  \<^verbatim>\<open>computeSectionScores\<close> is \<^verbatim>\<open>computeScore\<close> of the sections' pairs put end to
  end, in the order of the sections (and \<^verbatim>\<open>computeSectionScores\<close> throws exactly
  when that call throws). It is not the sum of the section entries: for a section
  with one correct answer and a section with one wrong answer the accuracies of the
  sections add up to \<open>100\<close>, and the accuracy of the total is \<open>50\<close>.
\<close>

theorem overall_total_recomputed:
  "map_sum id total (computeSectionScores secs)
     = computeScore (Some (concat (map pairs secs))) None None
   \<and> (\<exists>r. computeSectionScores split_sections = Inr r
          \<and> sum_list (map (\<lambda>s. accuracy (score s)) (sectionResults r)) = 100
          \<and> accuracy (total r) = 50)"
proof
  show "map_sum id total (computeSectionScores secs)
     = computeScore (Some (concat (map pairs secs))) None None"
  proof (cases "\<forall>p\<in>set (concat (map pairs secs)). convertible (p_your p) \<and> convertible (p_correct p)")
    case True
    obtain rs where rs: "score_sections secs = Inr rs"
      using score_sections_ok [OF True] by blast
    show ?thesis
      by (simp add: computeSectionScores_def rs split: sum.splits)
  next
    case False
    then have e: "\<exists>p\<in>set (concat (map pairs secs)). \<not> (convertible (p_your p) \<and> convertible (p_correct p))"
      by blast
    show ?thesis
      by (simp add: computeSectionScores_def score_sections_error [OF e] computeScore_error [OF e])
  qed
next
  show "\<exists>r. computeSectionScores split_sections = Inr r
          \<and> sum_list (map (\<lambda>s. accuracy (score s)) (sectionResults r)) = 100
          \<and> accuracy (total r) = 50"
    by (simp add: split_sections_scores)
qed

text \<open>The theorem at the two sections of the example.\<close>

theorem overall_total_recomputed_witness:
  "computeScore (Some (concat (map pairs split_sections))) None None
     = Inr \<lparr> correct = 1, wrong = 1, unattempted = 0, totalQuestions = 2,
              marksPerCorrect = 1, negativePerWrong = 1 / 4,
              totalMarks = 3 / 4, accuracy = 50 \<rparr>"
  using overall_total_recomputed [of split_sections]
  by (simp add: split_sections_scores)

subsection \<open>Fields of any kind\<close>

lemma computeScore_option_args:
  "computeScore (Some ps) m n =
     computeScore (Some ps) (Some (case m of None \<Rightarrow> 1 | Some x \<Rightarrow> x))
                            (Some (case n of None \<Rightarrow> 1 / 4 | Some x \<Rightarrow> x))"
  by (simp add: computeScore_def)

lemma falsy_becomes_empty:
  "\<not> truthy v \<Longrightarrow> js_String (js_or v (JString [])) = Inr []"
  by (simp add: js_or_def)

lemma classify_missing:
  "p_your p = JUndefined \<or> p_your p = JNull \<Longrightarrow> classify p = Unattempted"
  by (auto simp: classify_def normalized_def js_or_def toUpperCase_def trim_def)

text \<open>
  \<^bold>\<open>C10\<close>, for the fields that \<^verbatim>\<open>String\<close> can convert. \<^verbatim>\<open>computeScore\<close> returns a summary exactly when
  \<^verbatim>\<open>String\<close> can convert every field of every pair, which is so for a missing
  field, \<^verbatim>\<open>null\<close>, every other primitive and every object with a working
  \<^verbatim>\<open>toString\<close>; otherwise it throws a \<^verbatim>\<open>TypeError\<close>. A field that is not truthy
  (missing, \<^verbatim>\<open>null\<close>, \<^verbatim>\<open>0\<close>, \<^verbatim>\<open>false\<close>, the empty string) is coerced to
  the empty string, so a pair whose \<^verbatim>\<open>your\<close> is missing or \<^verbatim>\<open>null\<close> is counted
  as unattempted. Called without arguments, \<^verbatim>\<open>computeScore\<close> is
  \<^verbatim>\<open>computeScore([], 1, 0.25)\<close>.
\<close>

theorem computeScore_total_on_convertible:
  "((\<forall>p\<in>set ps. convertible (p_your p) \<and> convertible (p_correct p)) \<longrightarrow>
      (\<exists>s. computeScore (Some ps) m n = Inr s
           \<and> unattempted s = count_of Unattempted ps
           \<and> correct s + wrong s + unattempted s = length ps))
   \<and> (\<not> (\<forall>p\<in>set ps. convertible (p_your p) \<and> convertible (p_correct p)) \<longrightarrow>
        computeScore (Some ps) m n = Inl TypeError)
   \<and> (\<forall>v. \<not> truthy v \<longrightarrow> js_String (js_or v (JString [])) = Inr [])
   \<and> (\<forall>v. convertible v \<longrightarrow> (\<exists>t. js_String (js_or v (JString [])) = Inr t))
   \<and> (\<forall>p. p_your p = JUndefined \<or> p_your p = JNull \<longrightarrow> classify p = Unattempted)
   \<and> computeScore None None None = computeScore (Some []) (Some 1) (Some (1 / 4))"
proof (intro conjI impI allI)
  assume h: "\<forall>p\<in>set ps. convertible (p_your p) \<and> convertible (p_correct p)"
  show "\<exists>s. computeScore (Some ps) m n = Inr s
           \<and> unattempted s = count_of Unattempted ps
           \<and> correct s + wrong s + unattempted s = length ps"
    using count_of_total [of ps]
    by (subst computeScore_option_args) (simp add: computeScore_convertible [OF h])
next
  assume "\<not> (\<forall>p\<in>set ps. convertible (p_your p) \<and> convertible (p_correct p))"
  then have "\<exists>p\<in>set ps. \<not> (convertible (p_your p) \<and> convertible (p_correct p))" by blast
  then show "computeScore (Some ps) m n = Inl TypeError" by (rule computeScore_error)
next
  fix v assume "\<not> truthy v"
  then show "js_String (js_or v (JString [])) = Inr []" by (rule falsy_becomes_empty)
next
  fix v assume "convertible v"
  then show "\<exists>t. js_String (js_or v (JString [])) = Inr t"
    using js_String_or_convertible by blast
next
  fix p :: pair assume "p_your p = JUndefined \<or> p_your p = JNull"
  then show "classify p = Unattempted" by (rule classify_missing)
next
  show "computeScore None None None = computeScore (Some []) (Some 1) (Some (1 / 4))"
    by (simp add: computeScore_def)
qed

text \<open>
  The theorem at four pairs with a missing field, \<^verbatim>\<open>null\<close>, \<^verbatim>\<open>false\<close>, a
  number and ordinary objects: two of them are unattempted.
\<close>

theorem computeScore_total_on_convertible_witness:
  "\<exists>s. computeScore (Some odd_pairs) None None = Inr s \<and> unattempted s = 2
       \<and> correct s + wrong s + unattempted s = 4"
proof -
  have h: "\<forall>p\<in>set odd_pairs. convertible (p_your p) \<and> convertible (p_correct p)"
    by (simp add: odd_pairs_def convertible_def)
  have u: "count_of Unattempted odd_pairs = 2" by code_simp
  have l: "length odd_pairs = 4" by (simp add: odd_pairs_def)
  show ?thesis
    using computeScore_total_on_convertible [of odd_pairs None None] h
    by (simp add: u l)
qed

text \<open>
  A pair whose \<^verbatim>\<open>your\<close> is an object that \<^verbatim>\<open>String\<close> cannot convert (such as
  \<^verbatim>\<open>Object.create(null)\<close>): \<^verbatim>\<open>computeScore\<close> throws.
\<close>

theorem computeScore_throws_on_unconvertible:
  "computeScore (Some unconvertible_pairs) None None = Inl TypeError"
  by code_simp

section \<open>Properties of the rank estimate and of the option mapper\<close>





text \<open>
  \<^bold>\<open>C9\<close> says that \<^verbatim>\<open>mapToLetter\<close> maps 1 to 4 to the letters and every
  other input to the sentinel. The code departs from it at the inherited keys. The
  keys \<^verbatim>\<open>1\<close> to \<^verbatim>\<open>4\<close> give the letters and \<^verbatim>\<open>"--"\<close> gives \<^verbatim>\<open>"--"\<close>, but a
  key that names a member of
  \<^verbatim>\<open>Object.prototype\<close> gives that member, an object, and not the sentinel:
  \<^verbatim>\<open>mapToLetter("constructor")\<close> is the function \<^verbatim>\<open>Object\<close>.
\<close>

theorem mapToLetter_inherited_key:
  "mapToLetter ''1'' = JString ''A'' \<and> mapToLetter ''2'' = JString ''B''
   \<and> mapToLetter ''3'' = JString ''C'' \<and> mapToLetter ''4'' = JString ''D''
   \<and> mapToLetter ''--'' = JString ''--''
   \<and> mapToLetter ''constructor'' = JObject (Some ''function Object() { [native code] }'')
   \<and> (\<forall>num. num \<in> set (map fst Object_prototype) \<longrightarrow>
          (\<exists>s. mapToLetter num = JObject (Some s)))"
proof -
  have "\<And>num. num \<in> set (map fst Object_prototype) \<Longrightarrow>
          \<exists>s. mapToLetter num = JObject (Some s)"
    unfolding mapToLetter_def map_get_def letter_map_def Object_prototype_def
      native_function_def js_or_def
    by auto
  moreover have "mapToLetter ''1'' = JString ''A'' \<and> mapToLetter ''2'' = JString ''B''
   \<and> mapToLetter ''3'' = JString ''C'' \<and> mapToLetter ''4'' = JString ''D''
   \<and> mapToLetter ''--'' = JString ''--''
   \<and> mapToLetter ''constructor'' = JObject (Some ''function Object() { [native code] }'')"
    by code_simp
  ultimately show ?thesis by blast
qed

text \<open>The theorem at the key \<^verbatim>\<open>toString\<close>.\<close>

theorem mapToLetter_inherited_key_witness:
  "mapToLetter ''toString'' \<noteq> JString ''--''"
proof -
  have "''toString'' \<in> set (map fst Object_prototype)" by code_simp
  then show ?thesis using mapToLetter_inherited_key by auto
qed

section \<open>Properties of the parser\<close>

subsection \<open>Distribution over the sections\<close>

lemma assign_slices_Cons:
  "assign_slices (sec # rest) all q idx =
     (sec \<lparr> pairs := slice all idx (idx + q) \<rparr> # fst (assign_slices rest all q (idx + q)),
      snd (assign_slices rest all q (idx + q)))"
  by (simp add: Let_def split: prod.splits)

lemma assign_slices_length:
  "length (fst (assign_slices secs all q idx)) = length secs"
  by (induction secs arbitrary: idx) (simp_all add: assign_slices_Cons del: assign_slices.simps(2))

lemma assign_slices_idx:
  "snd (assign_slices secs all q idx) = idx + length secs * q"
  by (induction secs arbitrary: idx) (simp_all add: assign_slices_Cons del: assign_slices.simps(2))

lemma assign_slices_nth:
  "i < length secs \<Longrightarrow>
   fst (assign_slices secs all q idx) ! i
     = (secs ! i) \<lparr> pairs := take q (drop (idx + i * q) all) \<rparr>"
proof (induction secs arbitrary: idx i)
  case Nil
  then show ?case by simp
next
  case (Cons sec rest)
  show ?case
  proof (cases i)
    case 0
    then show ?thesis by (simp add: assign_slices_Cons slice_def del: assign_slices.simps(2))
  next
    case (Suc j)
    then have j: "j < length rest" using Cons.prems by simp
    have "fst (assign_slices rest all q (idx + q)) ! j
            = (rest ! j) \<lparr> pairs := take q (drop (idx + q + j * q) all) \<rparr>"
      by (rule Cons.IH [OF j])
    then show ?thesis
      using Suc by (simp add: assign_slices_Cons add.assoc del: assign_slices.simps(2))
  qed
qed

lemma concat_slices:
  "concat (map (\<lambda>i. take q (drop (i * q) xs)) [0..<m]) = take (m * q) xs"
proof (induction m)
  case 0
  show ?case by simp
next
  case (Suc m)
  have "take (m * q) xs @ take q (drop (m * q) xs) = take (m * q + q) xs"
    by (simp add: take_add)
  then show ?case using Suc by (simp add: add.commute)
qed

lemma distribute_many:
  assumes k: "length secs > 1"
  shows "distribute secs all =
     Inr (map (\<lambda>i. (secs ! i) \<lparr> pairs := share (length secs) (length all div length secs) all i \<rparr>)
            [0..<length secs])"
proof -
  define k where "k = length secs"
  define q where "q = length all div k"
  define secs' where "secs' = fst (assign_slices secs all q 0)"
  have len: "length secs' = k" by (simp add: secs'_def k_def assign_slices_length)
  have idx: "snd (assign_slices secs all q 0) = k * q" by (simp add: assign_slices_idx k_def)
  have pr: "assign_slices secs all q 0 = (secs', k * q)"
    using idx by (simp add: secs'_def prod_eq_iff)
  have ne: "secs' \<noteq> []" using len k k_def by auto
  have d: "distribute secs all =
      Inr (butlast secs' @ [last secs' \<lparr> pairs := pairs (last secs') @ drop (k * q) all \<rparr>])"
    using k by (simp add: distribute_def Let_def k_def [symmetric] q_def [symmetric] pr)
  have nth': "\<And>i. i < k \<Longrightarrow> secs' ! i = (secs ! i) \<lparr> pairs := take q (drop (i * q) all) \<rparr>"
    using assign_slices_nth [of _ secs all q 0] by (simp add: secs'_def k_def)
  have lst: "last secs' = (secs ! (k - 1)) \<lparr> pairs := take q (drop ((k - 1) * q) all) \<rparr>"
    using nth' [of "k - 1"] ne len k k_def by (simp add: last_conv_nth)
  have "k = Suc (k - 1)" using k k_def by simp
  then have "k * q = Suc (k - 1) * q" by simp
  then have kq: "k * q = (k - 1) * q + q" by simp
  have app: "take q (drop ((k - 1) * q) all) @ drop (k * q) all = drop ((k - 1) * q) all"
  proof -
    have "take q (drop ((k - 1) * q) all) @ drop q (drop ((k - 1) * q) all)
            = drop ((k - 1) * q) all"
      by (rule append_take_drop_id)
    moreover have "drop q (drop ((k - 1) * q) all) = drop (k * q) all"
      unfolding kq drop_drop by (simp only: add.commute)
    ultimately show ?thesis by simp
  qed
  have "butlast secs' @ [last secs' \<lparr> pairs := pairs (last secs') @ drop (k * q) all \<rparr>]
      = map (\<lambda>i. (secs ! i) \<lparr> pairs := share k q all i \<rparr>) [0..<k]"
  proof (rule nth_equalityI)
    show "length (butlast secs' @ [last secs' \<lparr> pairs := pairs (last secs') @ drop (k * q) all \<rparr>])
        = length (map (\<lambda>i. (secs ! i) \<lparr> pairs := share k q all i \<rparr>) [0..<k])"
      using len ne by (cases secs' rule: rev_cases) simp_all
  next
    fix i
    assume "i < length (butlast secs' @ [last secs' \<lparr> pairs := pairs (last secs') @ drop (k * q) all \<rparr>])"
    then have i: "i < k" using len ne by (cases secs' rule: rev_cases) auto
    show "(butlast secs' @ [last secs' \<lparr> pairs := pairs (last secs') @ drop (k * q) all \<rparr>]) ! i
        = map (\<lambda>i. (secs ! i) \<lparr> pairs := share k q all i \<rparr>) [0..<k] ! i"
    proof (cases "i < k - 1")
      case True
      then have "(butlast secs' @ [last secs' \<lparr> pairs := pairs (last secs') @ drop (k * q) all \<rparr>]) ! i
          = secs' ! i"
        using len by (simp add: nth_append nth_butlast)
      then show ?thesis using True i by (simp add: nth' share_def)
    next
      case False
      then have e: "i = k - 1" using i by simp
      have "(butlast secs' @ [last secs' \<lparr> pairs := pairs (last secs') @ drop (k * q) all \<rparr>]) ! i
          = last secs' \<lparr> pairs := pairs (last secs') @ drop (k * q) all \<rparr>"
        using len e by (simp add: nth_append)
      then show ?thesis using i e app by (simp add: lst share_def)
    qed
  qed
  then show ?thesis unfolding d by (simp add: k_def q_def)
qed

subsection \<open>Question tables and the structural pass\<close>




lemma mapToLetter_letters:
  "mapToLetter ''1'' = JString ''A''" "mapToLetter ''2'' = JString ''B''"
  "mapToLetter ''3'' = JString ''C''" "mapToLetter ''4'' = JString ''D''"
  by (simp_all add: mapToLetter_def map_get_def letter_map_def js_or_def)









lemma table_pair_emitted:
  assumes "correct_num tbl = Some num" and "num \<noteq> []"
  shows "table_pair tbl =
           Some \<lparr> p_your = (case chosen_num (tbl_next tbl) of
                                None \<Rightarrow> JString ''--''
                              | Some n \<Rightarrow> if n = [] then JString ''--'' else mapToLetter n),
                   p_correct = mapToLetter num \<rparr>"
  using assms by (simp add: table_pair_def Let_def selection_or_def)






lemma push_last_names:
  "xs \<noteq> [] \<Longrightarrow> map name (butlast xs @ [push_pair (last xs) p]) = map name xs"
  by (cases xs rule: rev_cases) (simp_all add: push_pair_def)

lemma push_current_names:
  "map name (st_sections (push_current st p)) = map name (st_sections st)"
proof (cases "st_overall st")
  case None
  show ?thesis
  proof (cases "st_sections st")
    case Nil
    then show ?thesis using None by (simp add: push_current_def)
  next
    case (Cons a as)
    have "map name (butlast (a # as) @ [push_pair (last (a # as)) p]) = map name (a # as)"
      by (rule push_last_names) simp
    then show ?thesis using None Cons
      by (simp add: push_current_def del: butlast.simps last.simps)
  qed
next
  case (Some ov)
  then show ?thesis by (simp add: push_current_def)
qed

lemma table_step_names:
  "map name (st_sections (table_step st tbl)) = map name (st_sections st)"
  by (simp add: table_step_def push_current_names split: option.splits)

lemma foldl_table_step_names:
  "map name (st_sections (foldl table_step st tbls)) = map name (st_sections st)"
  by (induction tbls arbitrary: st) (simp_all add: table_step_names)

lemma structural_pass_names:
  "map name (st_sections (structural_pass doc)) = map name (discover_sections (section_lbls doc))"
  by (simp add: structural_pass_def Let_def foldl_table_step_names)

lemma distribute_names_only:
  assumes "map name secs = map name secs'" and "length secs > 1"
  shows "distribute secs all = distribute secs' all"
proof -
  have l: "length secs = length secs'" using assms(1) by (metis length_map)
  have n: "\<And>i. i < length secs \<Longrightarrow> name (secs ! i) = name (secs' ! i)"
    using assms(1) l by (metis nth_map)
  have e: "\<And>i x. i < length secs \<Longrightarrow> (secs ! i) \<lparr> pairs := x \<rparr> = (secs' ! i) \<lparr> pairs := x \<rparr>"
    using n by (simp add: answer_section.equality)
  have "map (\<lambda>i. (secs ! i) \<lparr> pairs := share (length secs) (length all div length secs) all i \<rparr>)
            [0..<length secs]
      = map (\<lambda>i. (secs' ! i) \<lparr> pairs := share (length secs) (length all div length secs) all i \<rparr>)
            [0..<length secs]"
    using e by simp
  then show ?thesis
    using assms(2) l by (simp add: distribute_many)
qed

lemma assemble_many:
  assumes "length (discover_sections (section_lbls doc)) > 1"
  shows "assemble doc =
     distribute (discover_sections (section_lbls doc)) (structural_pairs doc)"
proof -
  have n: "map name (st_sections (structural_pass doc))
             = map name (discover_sections (section_lbls doc))"
    by (rule structural_pass_names)
  then have "length (st_sections (structural_pass doc))
             = length (discover_sections (section_lbls doc))"
    by (metis length_map)
  then have "length (st_sections (structural_pass doc)) > 1" using assms by simp
  then show ?thesis
    unfolding assemble_def Let_def structural_pairs_def
    by (rule distribute_names_only [OF n])
qed



lemma parseAnswers_string:
  "h \<noteq> [] \<Longrightarrow>
   parseAnswers load (JString h) =
     (case assemble (load h) of
        Inl e \<Rightarrow> Inl e
      | Inr secs \<Rightarrow>
          (case fallback secs (body_text (load h)) of
             Inl e \<Rightarrow> Inl e
           | Inr secs' \<Rightarrow> Inr \<lparr> sections = secs' \<rparr>))"
  by (simp add: parseAnswers_def js_typeof_def string_of_def Let_def)

lemma distribute_many_props:
  assumes many: "length secs > 1"
  shows "\<exists>res. distribute secs all = Inr res \<and> length res = length secs
           \<and> map name res = map name secs
           \<and> (\<forall>i<length secs - 1.
                  pairs (res ! i)
                    = take (length all div length secs) (drop (i * (length all div length secs)) all)
                  \<and> length (pairs (res ! i)) = length all div length secs)
           \<and> pairs (last res) = drop ((length secs - 1) * (length all div length secs)) all
           \<and> length (pairs (last res))
                = length all - (length secs - 1) * (length all div length secs)
           \<and> concat (map pairs res) = all"
proof -
  define k where "k = length secs"
  define n where "n = length all"
  define q where "q = n div k"
  define res where "res = map (\<lambda>i. (secs ! i) \<lparr> pairs := share k q all i \<rparr>) [0..<k]"
  have k1: "k > 1" using many by (simp add: k_def)
  have dist: "distribute secs all = Inr res"
    using many by (simp add: distribute_many res_def k_def n_def q_def)
  have len: "length res = k" by (simp add: res_def)
  have names: "map name res = map name secs"
    by (rule nth_equalityI) (simp_all add: res_def k_def)
  have kq: "k * q \<le> n" by (simp add: q_def)
  have nth: "\<And>i. i < k \<Longrightarrow> pairs (res ! i) = share k q all i"
    by (simp add: res_def)
  have first: "\<forall>i<k - 1. pairs (res ! i) = take q (drop (i * q) all)
                              \<and> length (pairs (res ! i)) = q"
  proof (intro allI impI)
    fix i
    assume i: "i < k - 1"
    then have "Suc i \<le> k" by simp
    then have "Suc i * q \<le> k * q" by (rule mult_le_mono1)
    then have b: "i * q + q \<le> n" using kq by simp
    have p: "pairs (res ! i) = take q (drop (i * q) all)"
      using i by (simp add: nth share_def)
    have "length (take q (drop (i * q) all)) = q"
      using b by (simp add: n_def)
    then show "pairs (res ! i) = take q (drop (i * q) all) \<and> length (pairs (res ! i)) = q"
      using p by simp
  qed
  have ne: "res \<noteq> []" using len k1 by auto
  have "last res = res ! (k - 1)" using ne len by (simp add: last_conv_nth)
  then have lastp: "pairs (last res) = drop ((k - 1) * q) all"
    using k1 by (simp add: nth share_def)
  have "(k - 1) * q \<le> n" using kq k1
    by (metis diff_le_self le_trans mult_le_mono1)
  then have lastl: "length (pairs (last res)) = n - (k - 1) * q"
    by (simp add: lastp n_def)
  have "k = Suc (k - 1)" using k1 by simp
  then have "[0..<k] = [0..<Suc (k - 1)]" by simp
  then have upt: "[0..<k] = [0..<k - 1] @ [k - 1]" by (simp only: upt_Suc_append le0)
  have "map pairs res = map (share k q all) [0..<k]"
    by (rule nth_equalityI) (simp_all add: len nth)
  also have "\<dots> = map (\<lambda>i. take q (drop (i * q) all)) [0..<k - 1] @ [drop ((k - 1) * q) all]"
    unfolding upt by (simp add: share_def)
  finally have mp: "map pairs res
      = map (\<lambda>i. take q (drop (i * q) all)) [0..<k - 1] @ [drop ((k - 1) * q) all]" .
  have cc: "concat (map pairs res) = all"
    unfolding mp by (simp add: concat_slices)
  show ?thesis
    unfolding k_def [symmetric] n_def [symmetric] q_def [symmetric]
    using dist len names first lastp lastl cc by blast
qed





subsection \<open>Documents without sections, the fallback, and the values of a pair\<close>

lemma distribute_none: "distribute [] all = Inl TypeError"
  by (simp add: distribute_def)

lemma assemble_none:
  assumes "discover_sections (section_lbls doc) = []"
  shows "assemble doc = Inl TypeError"
proof -
  have "map name (st_sections (structural_pass doc)) = []"
    using assms by (simp add: structural_pass_names)
  then have "st_sections (structural_pass doc) = []" by simp
  then show ?thesis by (simp add: assemble_def Let_def distribute_none)
qed

text \<open>
  \<^bold>\<open>C1\<close> says that \<^verbatim>\<open>parseAnswers\<close> returns a result for every input and
  that, when no section header is found, the pairs go to an implicit section
  \<^verbatim>\<open>"Overall"\<close>. The code departs from it. For an input that is not a string, or
  is the empty string, \<^verbatim>\<open>parseAnswers\<close> returns a result without sections. For a
  string that is not empty and in which no section label is found, it does not
  return: \<^verbatim>\<open>sections[0].pairs = allPairs\<close> throws a \<^verbatim>\<open>TypeError\<close>, since
  \<^verbatim>\<open>sections\<close> is empty.
\<close>

theorem parseAnswers_without_sections:
  "(\<not> truthy html \<or> js_typeof html \<noteq> ''string'' \<longrightarrow>
      parseAnswers load html = Inr \<lparr> sections = [] \<rparr>)
   \<and> (h \<noteq> [] \<and> discover_sections (section_lbls (load h)) = [] \<longrightarrow>
        parseAnswers load (JString h) = Inl TypeError)"
proof (intro conjI impI)
  assume "\<not> truthy html \<or> js_typeof html \<noteq> ''string''"
  then show "parseAnswers load html = Inr \<lparr> sections = [] \<rparr>"
    by (simp add: parseAnswers_def)
next
  assume a: "h \<noteq> [] \<and> discover_sections (section_lbls (load h)) = []"
  then have "assemble (load h) = Inl TypeError" by (simp add: assemble_none)
  then show "parseAnswers load (JString h) = Inl TypeError"
    using a by (simp add: parseAnswers_string)
qed

text \<open>The theorem at a page of plain text.\<close>

theorem parseAnswers_without_sections_witness:
  "parseAnswers (\<lambda>h. plain_doc) (JString ''<p>Q1 Your Answer: B Correct Answer: C</p>'')
     = Inl TypeError"
proof -
  have "discover_sections (section_lbls plain_doc) = []" by code_simp
  then show ?thesis
    using parseAnswers_without_sections
      [of "JString ''<p>Q1 Your Answer: B Correct Answer: C</p>''" "\<lambda>h. plain_doc"
          "''<p>Q1 Your Answer: B Correct Answer: C</p>''"]
    by simp
qed

text \<open>
  \<^bold>\<open>C7\<close> says that the fallback runs exactly when the structural pass yields
  no pair, and appends every match of the pattern to the last section. The code
  departs from it on a page without section headers. On the page of plain text the
  structural pass yields no pair and the pattern has one match, \<open>(B, C)\<close>; the
  fallback is not reached and no pair is returned, since \<^verbatim>\<open>parseAnswers\<close> has
  thrown before.
\<close>

theorem fallback_not_reached_without_sections:
  "structural_pairs plain_doc = []
   \<and> rx1_exec_all 0 (collapse_spaces False (body_text plain_doc)) = [(''B'', ''C'')]
   \<and> parseAnswers (\<lambda>h. plain_doc) (JString ''<p>Q1 Your Answer: B Correct Answer: C</p>'')
        = Inl TypeError"
  by code_simp

text \<open>No result is returned for that page.\<close>

theorem fallback_not_reached_without_sections_witness:
  "\<forall>r. parseAnswers (\<lambda>h. plain_doc) (JString ''<p>Q1 Your Answer: B Correct Answer: C</p>'')
        \<noteq> Inr r"
  using fallback_not_reached_without_sections by simp




text \<open>
  \<^bold>\<open>C8\<close> says that a question table whose correct option is found is emitted
  with the sentinel as its chosen value when the menu table is missing or its
  chosen value is absent or cannot be parsed. The code departs from it at a value
  that names a member of \<^verbatim>\<open>Object.prototype\<close>. A question table whose correct
  option is found (option 2) and whose menu table has the chosen-option row
  \<^verbatim>\<open>constructor\<close>, which is no option number: the pair is emitted, but its chosen
  value is not the sentinel; it is the function \<^verbatim>\<open>Object\<close>, and the pair counts
  as wrong, not as unattempted.
\<close>

theorem unparseable_choice_not_sentinel:
  "correct_num odd_choice_block = Some ''2''
   \<and> chosen_num (companion_menu odd_choice_block) = Some ''constructor''
   \<and> \<not> shows_choice (companion_menu odd_choice_block)
   \<and> table_pair odd_choice_block
        = Some \<lparr> p_your = JObject (Some ''function Object() { [native code] }''),
                  p_correct = JString ''B'' \<rparr>
   \<and> classify \<lparr> p_your = JObject (Some ''function Object() { [native code] }''),
                 p_correct = JString ''B'' \<rparr> = Wrong"
  by code_simp

text \<open>The chosen value of that pair is not the sentinel.\<close>

theorem unparseable_choice_not_sentinel_witness:
  "\<exists>p. table_pair odd_choice_block = Some p \<and> p_your p \<noteq> JString ''--''
       \<and> classify p \<noteq> Unattempted"
  using unparseable_choice_not_sentinel by simp

lemma distribute_single: "distribute [s0] all = Inr [s0 \<lparr> pairs := all \<rparr>]"
  by (simp add: distribute_def)

lemma assemble_some:
  assumes "discover_sections (section_lbls doc) \<noteq> []"
  shows "\<exists>secs. assemble doc = Inr secs \<and> secs \<noteq> []
           \<and> map name secs = map name (discover_sections (section_lbls doc))
           \<and> concat (map pairs secs) = structural_pairs doc"
proof (cases "length (discover_sections (section_lbls doc)) > 1")
  case True
  obtain res where "distribute (discover_sections (section_lbls doc)) (structural_pairs doc) = Inr res"
    and "length res = length (discover_sections (section_lbls doc))"
    and "map name res = map name (discover_sections (section_lbls doc))"
    and "concat (map pairs res) = structural_pairs doc"
    using distribute_many_props [OF True, of "structural_pairs doc"] by blast
  then show ?thesis using True by (auto simp: assemble_many)
next
  case False
  have n: "map name (st_sections (structural_pass doc))
             = map name (discover_sections (section_lbls doc))"
    by (rule structural_pass_names)
  then have "length (st_sections (structural_pass doc))
             = length (discover_sections (section_lbls doc))"
    by (metis length_map)
  then have "length (st_sections (structural_pass doc)) = 1"
    using False assms by (cases "discover_sections (section_lbls doc)") auto
  then obtain s0 where s0: "st_sections (structural_pass doc) = [s0]"
    by (cases "st_sections (structural_pass doc)") auto
  have "assemble doc = Inr [s0 \<lparr> pairs := structural_pairs doc \<rparr>]"
    by (simp add: assemble_def Let_def s0 distribute_single structural_pairs_def)
  then show ?thesis using n s0 by simp
qed

lemma push_matches_some:
  "secs \<noteq> [] \<Longrightarrow>
   push_matches secs ms =
     Inr (butlast secs @
            [last secs \<lparr> pairs := pairs (last secs) @ map (\<lambda>(y, c). str_pair y c) ms \<rparr>])"
proof (induction ms arbitrary: secs)
  case Nil
  then show ?case by simp
next
  case (Cons m ms)
  obtain y c where m: "m = (y, c)" by (cases m)
  obtain s ss where s: "secs = s # ss" using Cons.prems by (cases secs) auto
  define secs' where "secs' = butlast secs @ [push_pair (last secs) (str_pair y c)]"
  have ne: "secs' \<noteq> []" by (simp add: secs'_def)
  have b: "butlast secs' = butlast secs" by (simp add: secs'_def butlast_append)
  have l: "last secs' = push_pair (last secs) (str_pair y c)" by (simp add: secs'_def)
  have "push_matches secs (m # ms) = push_matches secs' ms"
    unfolding m s secs'_def by simp
  also have "\<dots> = Inr (butlast secs' @
            [last secs' \<lparr> pairs := pairs (last secs') @ map (\<lambda>(y, c). str_pair y c) ms \<rparr>])"
    by (rule Cons.IH [OF ne])
  finally show ?case by (simp add: b l m push_pair_def)
qed

lemma mapToLetter_plain_keys_aux:
  assumes "num \<notin> set (map fst Object_prototype)"
  shows "mapToLetter num =
       (if num = ''1'' then JString ''A'' else if num = ''2'' then JString ''B''
        else if num = ''3'' then JString ''C'' else if num = ''4'' then JString ''D''
        else JString ''--'')"
proof -
  have "map_of Object_prototype num = None" using assms by (simp add: map_of_eq_None_iff)
  then show ?thesis
    unfolding mapToLetter_def map_get_def letter_map_def js_or_def by auto
qed

text \<open>
  The option mapper on the keys it treats as meant: a key that names no member of
  \<^verbatim>\<open>Object.prototype\<close> gives its letter when it is \<^verbatim>\<open>1\<close> to \<^verbatim>\<open>4\<close> and the
  sentinel otherwise.
\<close>

theorem mapToLetter_plain_keys:
  "num \<notin> set (map fst Object_prototype) \<longrightarrow>
     mapToLetter num =
       (if num = ''1'' then JString ''A'' else if num = ''2'' then JString ''B''
        else if num = ''3'' then JString ''C'' else if num = ''4'' then JString ''D''
        else JString ''--'')"
  using mapToLetter_plain_keys_aux by blast

theorem mapToLetter_plain_keys_witness:
  "mapToLetter ''undefined'' = JString ''--'' \<and> mapToLetter ''05'' = JString ''--''"
proof -
  have "''undefined'' \<notin> set (map fst Object_prototype)" by code_simp
  moreover have "''05'' \<notin> set (map fst Object_prototype)" by code_simp
  ultimately show ?thesis
    using mapToLetter_plain_keys [of "''undefined''"] mapToLetter_plain_keys [of "''05''"]
    by simp
qed

text \<open>
  \<^verbatim>\<open>parseAnswers\<close> on a document with at least one section: it returns; the
  sections hold the pairs of the structural pass; the fallback runs exactly when
  there is none, and then each match of the pattern is appended, in order, to the
  last section.
\<close>

theorem fallback_with_sections:
  "h \<noteq> [] \<and> discover_sections (section_lbls (load h)) \<noteq> [] \<longrightarrow>
     (\<exists>secs. assemble (load h) = Inr secs \<and> secs \<noteq> []
        \<and> concat (map pairs secs) = structural_pairs (load h)
        \<and> parseAnswers load (JString h) =
            Inr \<lparr> sections =
                    (if structural_pairs (load h) = []
                     then butlast secs @
                          [last secs \<lparr> pairs := pairs (last secs) @
                             map (\<lambda>(y, c). str_pair y c)
                               (rx1_exec_all 0 (collapse_spaces False (body_text (load h)))) \<rparr>]
                     else secs) \<rparr>)"
proof
  assume a: "h \<noteq> [] \<and> discover_sections (section_lbls (load h)) \<noteq> []"
  then obtain secs where asm: "assemble (load h) = Inr secs" and ne: "secs \<noteq> []"
    and cc: "concat (map pairs secs) = structural_pairs (load h)"
    using assemble_some [of "load h"] by blast
  have "parseAnswers load (JString h) =
            Inr \<lparr> sections =
                    (if structural_pairs (load h) = []
                     then butlast secs @
                          [last secs \<lparr> pairs := pairs (last secs) @
                             map (\<lambda>(y, c). str_pair y c)
                               (rx1_exec_all 0 (collapse_spaces False (body_text (load h)))) \<rparr>]
                     else secs) \<rparr>"
    using a by (simp add: parseAnswers_string asm fallback_def cc Let_def push_matches_some [OF ne])
  then show "\<exists>secs. assemble (load h) = Inr secs \<and> secs \<noteq> []
        \<and> concat (map pairs secs) = structural_pairs (load h)
        \<and> parseAnswers load (JString h) =
            Inr \<lparr> sections =
                    (if structural_pairs (load h) = []
                     then butlast secs @
                          [last secs \<lparr> pairs := pairs (last secs) @
                             map (\<lambda>(y, c). str_pair y c)
                               (rx1_exec_all 0 (collapse_spaces False (body_text (load h)))) \<rparr>]
                     else secs) \<rparr>"
    using asm ne cc by blast
qed

theorem fallback_with_sections_witness:
  "parseAnswers (\<lambda>h. one_section_text_doc) (JString ''<html>'') =
     Inr \<lparr> sections = [\<lparr> name = ''General'',
                           pairs = [str_pair ''B'' ''C'', str_pair ''Not Attempted'' ''a''] \<rparr>] \<rparr>"
proof -
  have d: "discover_sections (section_lbls one_section_text_doc)
             = [\<lparr> name = ''General'', pairs = [] \<rparr>]" by code_simp
  have p: "structural_pairs one_section_text_doc = []" by code_simp
  have a: "assemble one_section_text_doc = Inr [\<lparr> name = ''General'', pairs = [] \<rparr>]"
    by code_simp
  have m: "rx1_exec_all 0 (collapse_spaces False (body_text one_section_text_doc))
             = [(''B'', ''C''), (''Not Attempted'', ''a'')]" by code_simp
  show ?thesis
    using fallback_with_sections [of "''<html>''" "\<lambda>h. one_section_text_doc"]
    by (simp add: d p a m)
qed

text \<open>
  A question table whose correct option is found is emitted with the sentinel as
  its chosen value, and counts as unattempted, when its companion menu table is
  missing, or has no chosen-option row as its last row, or the value of that row
  is empty or is neither an option number nor the name of a member of
  \<^verbatim>\<open>Object.prototype\<close>.
\<close>

theorem block_without_choice:
  "correct_num tbl = Some num \<and> num \<noteq> []
   \<and> (chosen_num (companion_menu tbl) = None
      \<or> (\<exists>n. chosen_num (companion_menu tbl) = Some n
              \<and> n \<notin> set [''1'', ''2'', ''3'', ''4'']
              \<and> n \<notin> set (map fst Object_prototype)))
   \<longrightarrow> table_pair tbl = Some \<lparr> p_your = JString ''--'', p_correct = mapToLetter num \<rparr>
       \<and> classify \<lparr> p_your = JString ''--'', p_correct = mapToLetter num \<rparr> = Unattempted"
proof (intro impI)
  assume a: "correct_num tbl = Some num \<and> num \<noteq> []
   \<and> (chosen_num (companion_menu tbl) = None
      \<or> (\<exists>n. chosen_num (companion_menu tbl) = Some n
              \<and> n \<notin> set [''1'', ''2'', ''3'', ''4'']
              \<and> n \<notin> set (map fst Object_prototype)))"
  have e: "chosen_num [] = None" by (simp add: chosen_num_def)
  have y: "(case chosen_num (tbl_next tbl) of
              None \<Rightarrow> JString ''--''
            | Some n \<Rightarrow> if n = [] then JString ''--'' else mapToLetter n) = JString ''--''"
  proof (cases "tbl_next tbl = []")
    case True
    then show ?thesis by (simp add: e)
  next
    case False
    then have c: "companion_menu tbl = tbl_next tbl" by (simp add: companion_menu_def)
    show ?thesis
    proof (cases "chosen_num (tbl_next tbl)")
      case None
      then show ?thesis by simp
    next
      case (Some n)
      then have "n \<notin> set [''1'', ''2'', ''3'', ''4''] \<and> n \<notin> set (map fst Object_prototype)"
        using a c by auto
      then have "mapToLetter n = JString ''--''"
        using mapToLetter_plain_keys_aux [of n] by auto
      then show ?thesis using Some by simp
    qed
  qed
  have t: "table_pair tbl = Some \<lparr> p_your = JString ''--'', p_correct = mapToLetter num \<rparr>"
    using a table_pair_emitted [of tbl num] by (simp add: y)
  have "normalized (JString ''--'') = ''--''" by code_simp
  then have "classify \<lparr> p_your = JString ''--'', p_correct = mapToLetter num \<rparr> = Unattempted"
    by (simp add: classify_def)
  then show "table_pair tbl = Some \<lparr> p_your = JString ''--'', p_correct = mapToLetter num \<rparr>
       \<and> classify \<lparr> p_your = JString ''--'', p_correct = mapToLetter num \<rparr> = Unattempted"
    using t by simp
qed

theorem block_without_choice_witness:
  "table_pair (block ''4. Rome'' []) = Some (str_pair ''--'' ''D'')
   \<and> classify (str_pair ''--'' ''D'') = Unattempted"
proof -
  have c: "correct_num (block ''4. Rome'' []) = Some ''4''" by code_simp
  have m: "chosen_num (companion_menu (block ''4. Rome'' [])) = None" by code_simp
  have l: "mapToLetter ''4'' = JString ''D''" by code_simp
  show ?thesis
    using block_without_choice [of "block ''4. Rome'' []" "''4''"]
    by (simp add: c m l str_pair_def)
qed

end
